theory Spec2Isabelle
  imports Main
begin

section \<open>Strings\<close>

text \<open>
  A JavaScript string is a sequence of UTF-16 code units; a code unit is modelled as a
  natural number. \<open>js\<close> embeds an ASCII literal. A string is truthy when it is not empty.
\<close>

type_synonym jsstring = "nat list"

definition js :: "string \<Rightarrow> jsstring" where
  "js s = map of_char s"

text \<open>
  \<^verbatim>\<open>String.prototype.trim\<close> removes the code units of WhiteSpace and LineTerminator
  (ECMAScript) from both ends: TAB, LF, VT, FF, CR, SP, NBSP, U+1680, U+2000 to U+200A,
  U+2028, U+2029, U+202F, U+205F, U+3000 and U+FEFF.
\<close>

definition js_whitespace :: "nat \<Rightarrow> bool" where
  "js_whitespace c =
     (c = 9 \<or> c = 10 \<or> c = 11 \<or> c = 12 \<or> c = 13 \<or> c = 32 \<or> c = 160 \<or> c = 5760 \<or>
      (8192 \<le> c \<and> c \<le> 8202) \<or> c = 8232 \<or> c = 8233 \<or> c = 8239 \<or> c = 8287 \<or>
      c = 12288 \<or> c = 65279)"

definition trim :: "jsstring \<Rightarrow> jsstring" where
  "trim s = rev (dropWhile js_whitespace (rev (dropWhile js_whitespace s)))"

section \<open>The speech recognition hook (useSpeechRecognition.ts)\<close>

subsection \<open>Data\<close>

text \<open>
  A recognition result as the handler reads it: its \<^verbatim>\<open>isFinal\<close> flag and the transcript
  of its first alternative (\<^verbatim>\<open>result[0].transcript\<close>). A result event carries the list of
  results and the index of the first one that is new.
\<close>

record sr_result =
  isFinal :: bool
  alt_transcript :: jsstring

record sr_event =
  results :: "sr_result list"
  resultIndex :: nat

text \<open>
  A recognizer object. Every run of the effect makes a new one (line 47) and gives it
  handlers that close over the \<^verbatim>\<open>isListening\<close> and \<^verbatim>\<open>finalTranscript\<close> of the render the
  effect belongs to: \<open>rc_isListening\<close> and \<open>rc_finalTranscript\<close>. The handlers of an object
  never change, so these values stay with it. \<open>rid\<close> tells the objects apart.
\<close>

record recognizer =
  rid :: nat
  rc_isListening :: bool
  rc_finalTranscript :: jsstring
  rec_continuous :: bool
  rec_interimResults :: bool
  rec_lang :: jsstring

text \<open>\<^verbatim>\<open>new SpeechRecognition()\<close>, configured as in lines 50 to 52.\<close>

definition newRecognition :: "nat \<Rightarrow> bool \<Rightarrow> jsstring \<Rightarrow> recognizer" where
  "newRecognition i il ft =
     \<lparr> rid = i, rc_isListening = il, rc_finalTranscript = ft,
       rec_continuous = True, rec_interimResults = True, rec_lang = js ''tr-TR'' \<rparr>"

text \<open>The calls the hook makes on recognizers, each with the object called.\<close>

datatype rec_command = CmdStart | CmdStop | CmdAbort

text \<open>
  A pending timeout of the platform. Its callback (lines 94 to 98) is created inside
  \<^verbatim>\<open>onresult\<close> and closes over the \<^verbatim>\<open>isListening\<close> and the \<^verbatim>\<open>recognition\<close> object of
  the effect run that installed this \<^verbatim>\<open>onresult\<close>.
\<close>

record timer =
  tid :: nat
  deadline :: nat
  cap_listening :: bool
  cap_recognition :: recognizer

text \<open>
  The state of the hook: the four \<^verbatim>\<open>useState\<close> cells and the three refs, followed by
  what the platform and the framework hold for it: whether the platform has a
  recognizer constructor, whether the component is mounted, the next object identity,
  the clock (milliseconds), the pending timeouts, the calls received by recognizers and
  the invocations of the stored callback, each with its argument. The type of callbacks
  is a parameter.
\<close>

record 'cb hook =
  isListening :: bool
  transcript :: jsstring
  isSupported :: bool
  finalTranscript :: jsstring
  recognitionRef :: "recognizer option"
  silenceTimerRef :: "nat option"
  onSpeechEndRef :: "'cb option"
  hasSpeechRecognition :: bool
  mounted :: bool
  nextRecognitionId :: nat
  now :: nat
  nextTimerId :: nat
  timers :: "timer list"
  commands :: "(recognizer \<times> rec_command) list"
  invoked :: "('cb \<times> jsstring) list"

subsection \<open>Timeouts\<close>

definition clearTimeout :: "nat \<Rightarrow> 'cb hook \<Rightarrow> 'cb hook" where
  "clearTimeout i s = s\<lparr> timers := filter (\<lambda>t. tid t \<noteq> i) (timers s) \<rparr>"

text \<open>\<^verbatim>\<open>if (silenceTimerRef.current) clearTimeout(silenceTimerRef.current)\<close>\<close>

definition clearSilenceTimer :: "'cb hook \<Rightarrow> 'cb hook" where
  "clearSilenceTimer s =
     (case silenceTimerRef s of None \<Rightarrow> s | Some i \<Rightarrow> clearTimeout i s)"

text \<open>
  \<^verbatim>\<open>silenceTimerRef.current = setTimeout(..., 2000)\<close>, in the \<^verbatim>\<open>onresult\<close> of the
  recognizer \<open>r\<close>: a new timeout, due 2000 ms from now, whose callback keeps the
  \<^verbatim>\<open>isListening\<close> captured by \<open>r\<close> and \<open>r\<close> itself.
\<close>

definition setSilenceTimer :: "recognizer \<Rightarrow> 'cb hook \<Rightarrow> 'cb hook" where
  "setSilenceTimer r s =
     s\<lparr> timers := timers s @
            [\<lparr> tid = nextTimerId s, deadline = now s + 2000,
               cap_listening = rc_isListening r, cap_recognition = r \<rparr>],
        silenceTimerRef := Some (nextTimerId s),
        nextTimerId := nextTimerId s + 1 \<rparr>"

text \<open>
  The callback of the silence timeout:
  \<^verbatim>\<open>if (recognitionRef.current && isListening) recognition.stop()\<close>.
\<close>

definition silenceTimeout :: "timer \<Rightarrow> 'cb hook \<Rightarrow> 'cb hook" where
  "silenceTimeout t s =
     (if recognitionRef s \<noteq> None \<and> cap_listening t
      then s\<lparr> commands := commands s @ [(cap_recognition t, CmdStop)] \<rparr>
      else s)"

text \<open>
  \<open>d\<close> milliseconds pass with no other event: the timeouts that fall due run, oldest
  first, and leave the platform's list.
\<close>

definition advance :: "nat \<Rightarrow> 'cb hook \<Rightarrow> 'cb hook" where
  "advance d s =
     fold silenceTimeout
       (filter (\<lambda>t. deadline t \<le> now s + d) (timers s))
       (s\<lparr> now := now s + d,
           timers := filter (\<lambda>t. \<not> deadline t \<le> now s + d) (timers s) \<rparr>)"

subsection \<open>The effect\<close>

definition initial :: "'cb hook" where
  "initial =
     \<lparr> isListening = False, transcript = [], isSupported = False, finalTranscript = [],
       recognitionRef = None, silenceTimerRef = None, onSpeechEndRef = None,
       hasSpeechRecognition = False, mounted = False, nextRecognitionId = 0,
       now = 0, nextTimerId = 1, timers = [], commands = [], invoked = [] \<rparr>"

text \<open>
  The body of the effect (lines 43 to 108), run for a render with the state \<open>s\<close>: when
  the platform has a recognizer constructor, a new object is made, its handlers close
  over the \<^verbatim>\<open>isListening\<close> and \<^verbatim>\<open>finalTranscript\<close> of that render, and
  \<^verbatim>\<open>recognitionRef.current\<close> is set to it.
\<close>

definition effect :: "'cb hook \<Rightarrow> 'cb hook" where
  "effect s =
     (if hasSpeechRecognition s then
        s\<lparr> isSupported := True,
           recognitionRef :=
             Some (newRecognition (nextRecognitionId s) (isListening s) (finalTranscript s)),
           nextRecognitionId := nextRecognitionId s + 1 \<rparr>
      else s)"

text \<open>The cleanup the effect returns (lines 110 to 117).\<close>

definition cleanup :: "'cb hook \<Rightarrow> 'cb hook" where
  "cleanup s =
     clearSilenceTimer
       (case recognitionRef s of
          Some r \<Rightarrow> s\<lparr> commands := commands s @ [(r, CmdAbort)] \<rparr>
        | None \<Rightarrow> s)"

text \<open>
  Mounting runs the effect for the first render; \<open>supported\<close> says whether the platform
  has a recognizer constructor. Unmounting runs the cleanup of the last effect run.
\<close>

definition mount :: "bool \<Rightarrow> 'cb hook \<Rightarrow> 'cb hook" where
  "mount supported s = effect (s\<lparr> hasSpeechRecognition := supported, mounted := True \<rparr>)"

definition unmount :: "'cb hook \<Rightarrow> 'cb hook" where
  "unmount s = (cleanup s)\<lparr> mounted := False \<rparr>"

text \<open>
  The render that follows a handler or an operation: \<open>s0\<close> is the state before it (the
  state of the previous render) and \<open>s1\<close> the state it leaves. The effect has the
  dependency list \<^verbatim>\<open>[isListening, finalTranscript]\<close> (line 118): when one of the two has
  changed, the cleanup of the previous effect run is executed (it calls \<^verbatim>\<open>abort\<close> on the
  current recognizer and clears the timeout) and then the effect body again, which
  makes a new recognizer. The state updates of one handler are taken together, in one
  render. An unmounted component is not rendered.
\<close>

definition rerender :: "'cb hook \<Rightarrow> 'cb hook \<Rightarrow> 'cb hook" where
  "rerender s0 s1 =
     (if mounted s1 \<and>
         (isListening s1 \<noteq> isListening s0 \<or> finalTranscript s1 \<noteq> finalTranscript s0)
      then effect (cleanup s1)
      else s1)"

subsection \<open>The handlers of a recognizer\<close>

definition onstart :: "'cb hook \<Rightarrow> 'cb hook" where
  "onstart s = s\<lparr> isListening := True, transcript := [], finalTranscript := [] \<rparr>"

text \<open>
  \<^verbatim>\<open>onend\<close> reads \<^verbatim>\<open>finalTranscript\<close> from the closure of the effect run that installed
  it: \<open>cft\<close>. The callback is called with that text; the ref is not written.
\<close>

definition onend :: "jsstring \<Rightarrow> 'cb hook \<Rightarrow> 'cb hook" where
  "onend cft s =
     (let s1 = s\<lparr> isListening := False \<rparr>
      in if cft \<noteq> [] then
           (case onSpeechEndRef s1 of
              Some cb \<Rightarrow> s1\<lparr> invoked := invoked s1 @ [(cb, cft)], finalTranscript := [] \<rparr>
            | None \<Rightarrow> s1)
         else s1)"

text \<open>
  The loop of \<^verbatim>\<open>onresult\<close> (lines 73 to 80), from index \<open>i\<close>, with the two
  accumulators \<^verbatim>\<open>interimTranscript\<close> and \<^verbatim>\<open>currentFinalTranscript\<close>.
\<close>

function split_results :: "sr_result list \<Rightarrow> nat \<Rightarrow> jsstring \<Rightarrow> jsstring \<Rightarrow> jsstring \<times> jsstring" where
  "split_results rs i interim final =
     (if i < length rs then
        (if isFinal (rs ! i)
         then split_results rs (i + 1) interim (final @ alt_transcript (rs ! i))
         else split_results rs (i + 1) (interim @ alt_transcript (rs ! i)) final)
      else (interim, final))"
  by pat_completeness auto
termination
  by (relation "measure (\<lambda>(rs, i, interim, final). length rs - i)") auto

declare split_results.simps [simp del]

text \<open>
  \<^verbatim>\<open>onresult\<close> of the recognizer \<open>r\<close>: the final text is appended through the updater
  \<^verbatim>\<open>prev => prev + currentFinalTranscript\<close>, the interim text replaces the state cell,
  the timeout the ref names is cleared and a new one is set.
\<close>

definition onresult :: "recognizer \<Rightarrow> sr_event \<Rightarrow> 'cb hook \<Rightarrow> 'cb hook" where
  "onresult r ev s =
     (case split_results (results ev) (resultIndex ev) [] [] of
        (interimTranscript, currentFinalTranscript) \<Rightarrow>
          setSilenceTimer r
            (clearSilenceTimer
              ((if currentFinalTranscript \<noteq> []
                then s\<lparr> finalTranscript := finalTranscript s @ currentFinalTranscript \<rparr>
                else s)\<lparr> transcript := interimTranscript \<rparr>)))"

text \<open>\<^verbatim>\<open>onerror\<close>: the error kind is only logged.\<close>

definition onerror :: "jsstring \<Rightarrow> 'cb hook \<Rightarrow> 'cb hook" where
  "onerror kind s = clearSilenceTimer (s\<lparr> isListening := False \<rparr>)"

subsection \<open>The operations the hook returns\<close>

text \<open>
  \<^verbatim>\<open>startListening\<close> and \<^verbatim>\<open>stopListening\<close> are memoized on \<^verbatim>\<open>isListening\<close>: each
  instance tests the value of the render that made it, \<open>cil\<close>, and calls the recognizer
  that \<^verbatim>\<open>recognitionRef.current\<close> holds at the time of the call.
\<close>

definition startListening :: "bool \<Rightarrow> 'cb option \<Rightarrow> 'cb hook \<Rightarrow> 'cb hook" where
  "startListening cil onSpeechEnd s =
     (case recognitionRef s of
        Some r \<Rightarrow>
          if \<not> cil then
            s\<lparr> onSpeechEndRef := onSpeechEnd, transcript := [], finalTranscript := [],
               commands := commands s @ [(r, CmdStart)] \<rparr>
          else s
      | None \<Rightarrow> s)"

definition stopListening :: "bool \<Rightarrow> 'cb hook \<Rightarrow> 'cb hook" where
  "stopListening cil s =
     clearSilenceTimer
       (case recognitionRef s of
          Some r \<Rightarrow> if cil then s\<lparr> commands := commands s @ [(r, CmdStop)] \<rparr> else s
        | None \<Rightarrow> s)"

definition resetTranscript :: "'cb hook \<Rightarrow> 'cb hook" where
  "resetTranscript s = s\<lparr> transcript := [], finalTranscript := [] \<rparr>"

text \<open>The \<^verbatim>\<open>transcript\<close> field of the returned object (line 145).\<close>

definition exposed_transcript :: "'cb hook \<Rightarrow> jsstring" where
  "exposed_transcript s = finalTranscript s @ transcript s"

subsection \<open>Runs of the hook\<close>

text \<open>
  What can happen to a hook: an event of a recognizer, dispatched on the object that
  raises it and so handled by the handlers that object was given; time passing; a call
  of one of the returned operations; and the teardown of the component. The operations
  called are those the latest render returned, which hold the current \<^verbatim>\<open>isListening\<close>
  (dependency lists of lines 127 and 136). A step runs the handler and then the render
  that follows it.
\<close>

datatype 'cb event =
    EvStart recognizer
  | EvEnd recognizer
  | EvResult recognizer sr_event
  | EvError recognizer jsstring
  | Advance nat
  | CallStartListening "'cb option"
  | CallStopListening
  | CallResetTranscript
  | Teardown

fun handle :: "'cb hook \<Rightarrow> 'cb event \<Rightarrow> 'cb hook" where
  "handle s (EvStart r) = onstart s"
| "handle s (EvEnd r) = onend (rc_finalTranscript r) s"
| "handle s (EvResult r ev) = onresult r ev s"
| "handle s (EvError r kind) = onerror kind s"
| "handle s (Advance d) = advance d s"
| "handle s (CallStartListening cb) = startListening (isListening s) cb s"
| "handle s CallStopListening = stopListening (isListening s) s"
| "handle s CallResetTranscript = resetTranscript s"
| "handle s Teardown = unmount s"

definition step :: "'cb hook \<Rightarrow> 'cb event \<Rightarrow> 'cb hook" where
  "step s e = rerender s (handle s e)"

definition run :: "'cb hook \<Rightarrow> 'cb event list \<Rightarrow> 'cb hook" where
  "run s evs = foldl step s evs"

text \<open>
  The platform raises the events of a session on the recognizer whose \<^verbatim>\<open>start\<close> was
  called. \<open>dispatched\<close> says that every recognizer event of a run comes from an object
  that has been started by then.
\<close>

fun event_source :: "'cb event \<Rightarrow> recognizer option" where
  "event_source (EvStart r) = Some r"
| "event_source (EvEnd r) = Some r"
| "event_source (EvResult r ev) = Some r"
| "event_source (EvError r kind) = Some r"
| "event_source e = None"

definition started :: "'cb hook \<Rightarrow> recognizer \<Rightarrow> bool" where
  "started s r = ((r, CmdStart) \<in> set (commands s))"

fun dispatched :: "'cb hook \<Rightarrow> 'cb event list \<Rightarrow> bool" where
  "dispatched s [] = True"
| "dispatched s (e # es) =
     ((case event_source e of None \<Rightarrow> True | Some r \<Rightarrow> started s r) \<and>
      dispatched (step s e) es)"

text \<open>The two portions of a result event, as the specification names them.\<close>

definition new_results :: "sr_event \<Rightarrow> sr_result list" where
  "new_results ev = drop (resultIndex ev) (results ev)"

definition final_portion :: "sr_event \<Rightarrow> jsstring" where
  "final_portion ev = concat (map alt_transcript (filter isFinal (new_results ev)))"

definition interim_portion :: "sr_event \<Rightarrow> jsstring" where
  "interim_portion ev =
     concat (map alt_transcript (filter (\<lambda>r. \<not> isFinal r) (new_results ev)))"

text \<open>
  The events of a listening session that is still open: results, time passing, and calls
  of \<^verbatim>\<open>startListening\<close> and \<^verbatim>\<open>stopListening\<close>. \<open>result_events\<close> keeps the result
  events of a run, in arrival order.
\<close>

fun in_session :: "'cb event \<Rightarrow> bool" where
  "in_session (EvResult r ev) = True"
| "in_session (Advance d) = True"
| "in_session (CallStartListening cb) = True"
| "in_session CallStopListening = True"
| "in_session e = False"

fun result_of :: "'cb event \<Rightarrow> sr_event list" where
  "result_of (EvResult r ev) = [ev]"
| "result_of e = []"

definition result_events :: "'cb event list \<Rightarrow> sr_event list" where
  "result_events evs = concat (map result_of evs)"


text \<open>
  At most one timeout is pending, and it is the one \<^verbatim>\<open>silenceTimerRef\<close> names.
\<close>

definition timers_ok :: "'cb hook \<Rightarrow> bool" where
  "timers_ok s =
     (case timers s of
        [] \<Rightarrow> True
      | [t] \<Rightarrow> silenceTimerRef s = Some (tid t)
      | t # u # ts \<Rightarrow> False)"

text \<open>
  While the component is mounted, the current recognizer is the one of the latest
  render: its handlers hold the current \<^verbatim>\<open>isListening\<close> and \<^verbatim>\<open>finalTranscript\<close>.
\<close>

definition current_fresh :: "'cb hook \<Rightarrow> bool" where
  "current_fresh s =
     (case recognitionRef s of
        None \<Rightarrow> True
      | Some r \<Rightarrow>
          hasSpeechRecognition s \<and>
          (mounted s \<longrightarrow>
             rc_isListening r = isListening s \<and> rc_finalTranscript r = finalTranscript s))"

text \<open>
  Every recognizer that was started was made by a render that was not listening, and so
  was every recognizer a pending timeout belongs to.
\<close>

definition started_not_listening :: "'cb hook \<Rightarrow> bool" where
  "started_not_listening s =
     (list_all (\<lambda>(r, c). c \<noteq> CmdStart \<or> \<not> rc_isListening r) (commands s) \<and>
      list_all (\<lambda>t. \<not> cap_listening t) (timers s))"


text \<open>What holds of a mounted hook whose recognizer events come from started recognizers.\<close>

definition hook_invariant :: "'cb hook \<Rightarrow> bool" where
  "hook_invariant s = (mounted s \<and> current_fresh s \<and> started_not_listening s)"

section \<open>The chat component (App)\<close>

subsection \<open>Data\<close>

datatype chat_mode = Query | Chat

text \<open>
  The functions of the component are made anew at every render and close over the
  state constants of that render. \<open>closure_env\<close> holds the captured values the modelled
  functions read: \<^verbatim>\<open>isVoiceMode\<close>, \<^verbatim>\<open>mode\<close>, and the \<^verbatim>\<open>isListening\<close> inside the
  \<^verbatim>\<open>startListening\<close> and \<^verbatim>\<open>stopListening\<close> of that render.
\<close>

record closure_env =
  cap_isVoiceMode :: bool
  cap_mode :: chat_mode
  cap_isListening :: bool

text \<open>
  The only function ever passed to \<^verbatim>\<open>startListening\<close> is \<^verbatim>\<open>handleVoiceConversation\<close>
  (lines 91, 115 and 246); as a value it is the closure of one render.
\<close>

datatype callback = HandleVoiceConversation closure_env

datatype msg_type = User | Bot

text \<open>\<^verbatim>\<open>Date.now().toString()\<close> or the identifier the backend gave.\<close>

datatype msg_id = ClockId nat | BackendId jsstring

record chat_message =
  mid :: msg_id
  mtype :: msg_type
  message :: jsstring
  timestamp :: nat

record source =
  title :: jsstring
  chunk :: jsstring

record chat_response =
  resp_id :: "jsstring option"
  textResponse :: jsstring
  resp_sources :: "source list option"

datatype chat_failure = ChatApiError jsstring | OtherFailure

record app =
  messages :: "chat_message list"
  input :: jsstring
  isLoading :: bool
  sources :: "source list"
  isVoiceMode :: bool
  mode :: chat_mode

text \<open>
  The closures the component hands to the platform: the callback of a
  \<^verbatim>\<open>setTimeout\<close> (\<^verbatim>\<open>() => startListening(handleVoiceConversation)\<close>) and the
  completion callback given to \<^verbatim>\<open>speak\<close> (lines 87 to 94).
\<close>

datatype timer_task = StartListeningTask closure_env

datatype on_done = RelistenIfVoiceMode closure_env

text \<open>The calls a handler makes on its collaborators, in order.\<close>

datatype app_effect =
    StopSpeaking
  | SendChatMessage jsstring chat_mode jsstring
  | Speak jsstring "on_done option"
  | SetTimeout nat timer_task
  | ConsoleError

definition initial_app :: app where
  "initial_app =
     \<lparr> messages = [], input = [], isLoading = False, sources = [], isVoiceMode = False,
       mode = Chat \<rparr>"

text \<open>The values a render of the component captures.\<close>

definition render_env :: "app \<Rightarrow> 'cb hook \<Rightarrow> closure_env" where
  "render_env a h =
     \<lparr> cap_isVoiceMode = isVoiceMode a, cap_mode = mode a, cap_isListening = isListening h \<rparr>"

subsection \<open>The hands-free turn\<close>

text \<open>The fallback text of the catch branch (line 100), as code units.\<close>

definition genericErrorMessage :: jsstring where
  "genericErrorMessage =
     [220, 122, 103, 252, 110, 252, 109, 44, 32, 98, 105, 114, 32, 104, 97, 116, 97, 32,
      111, 108, 117, 351, 116, 117, 46, 32, 76, 252, 116, 102, 101, 110, 32, 116, 101, 107,
      114, 97, 114, 32, 100, 101, 110, 101, 121, 105, 110, 46]"

definition sessionId :: jsstring where
  "sessionId = js ''user-session-1''"

text \<open>\<^verbatim>\<open>data.id || Date.now().toString()\<close>\<close>

definition bot_id :: "chat_response \<Rightarrow> nat \<Rightarrow> msg_id" where
  "bot_id d t =
     (case resp_id d of
        Some i \<Rightarrow> if i \<noteq> [] then BackendId i else ClockId t
      | None \<Rightarrow> ClockId t)"

text \<open>\<^verbatim>\<open>data.sources && data.sources.length > 0\<close>\<close>

definition response_sources :: "chat_response \<Rightarrow> source list" where
  "response_sources d = (case resp_sources d of Some ss \<Rightarrow> ss | None \<Rightarrow> [])"

text \<open>
  \<^verbatim>\<open>handleVoiceConversation\<close> (lines 47 to 121). \<open>env\<close> is the render the closure
  belongs to, \<open>t0\<close> and \<open>t1\<close> are the clock readings before and after the backend call,
  and \<open>outcome\<close> is what awaiting \<^verbatim>\<open>sendChatMessage\<close> gives: a response, or the
  exception thrown.
\<close>

definition handleVoiceConversation ::
  "closure_env \<Rightarrow> nat \<Rightarrow> nat \<Rightarrow> chat_failure + chat_response \<Rightarrow> jsstring \<Rightarrow> app
     \<Rightarrow> app \<times> app_effect list" where
  "handleVoiceConversation env t0 t1 outcome spokenText a =
     (if trim spokenText = [] then (a, [])
      else
        let userMessage = \<lparr> mid = ClockId t0, mtype = User, message = spokenText, timestamp = t0 \<rparr>;
            a1 = a\<lparr> messages := messages a @ [userMessage], isLoading := True \<rparr>;
            sent = [StopSpeaking, SendChatMessage spokenText (cap_mode env) sessionId]
        in case outcome of
             Inr data \<Rightarrow>
               (a1\<lparr> messages := messages a1 @
                       [\<lparr> mid = bot_id data t1, mtype = Bot, message = textResponse data,
                          timestamp = t1 \<rparr>],
                    sources := response_sources data,
                    isLoading := False \<rparr>,
                sent @
                  (if textResponse data \<noteq> []
                   then [Speak (textResponse data) (Some (RelistenIfVoiceMode env))]
                   else []))
           | Inl err \<Rightarrow>
               (a1\<lparr> messages := messages a1 @
                       [\<lparr> mid = ClockId t1, mtype = Bot,
                          message = (case err of ChatApiError m \<Rightarrow> m
                                     | OtherFailure \<Rightarrow> genericErrorMessage),
                          timestamp = t1 \<rparr>],
                    isLoading := False \<rparr>,
                sent @ [ConsoleError] @
                  (if cap_isVoiceMode env then [SetTimeout 2000 (StartListeningTask env)]
                   else [])))"

text \<open>The completion callback given to \<^verbatim>\<open>speak\<close>, when the synthesizer calls it.\<close>

fun onDone :: "on_done \<Rightarrow> app_effect list" where
  "onDone (RelistenIfVoiceMode env) =
     (if cap_isVoiceMode env then [SetTimeout 1000 (StartListeningTask env)] else [])"

text \<open>A scheduled task, when its delay has passed.\<close>

fun runTask :: "timer_task \<Rightarrow> callback hook \<Rightarrow> callback hook" where
  "runTask (StartListeningTask env) h =
     startListening (cap_isListening env) (Some (HandleVoiceConversation env)) h"

text \<open>\<^verbatim>\<open>handleVoiceToggle\<close> (lines 237 to 248), of the render \<open>env\<close>.\<close>

definition handleVoiceToggle ::
  "closure_env \<Rightarrow> app \<times> callback hook \<Rightarrow> (app \<times> callback hook) \<times> app_effect list" where
  "handleVoiceToggle env x =
     (case x of (a, h) \<Rightarrow>
        if cap_isVoiceMode env then
          ((a\<lparr> isVoiceMode := False \<rparr>, stopListening (cap_isListening env) h), [StopSpeaking])
        else
          ((a\<lparr> isVoiceMode := True \<rparr>,
            startListening (cap_isListening env) (Some (HandleVoiceConversation env)) h), []))"

subsection \<open>Manual dictation\<close>

text \<open>
  The effect of lines 259 to 264. It belongs to the render whose \<^verbatim>\<open>transcript\<close> or
  \<^verbatim>\<open>isVoiceMode\<close> changed, so it reads the current values.
\<close>

definition transcriptEffect :: "app \<times> 'cb hook \<Rightarrow> app \<times> 'cb hook" where
  "transcriptEffect x =
     (case x of (a, h) \<Rightarrow>
        if exposed_transcript h \<noteq> [] \<and> \<not> isVoiceMode a
        then (a\<lparr> input := exposed_transcript h \<rparr>, resetTranscript h)
        else (a, h))"

section \<open>Speech synthesis\<close>

text \<open>
  Modelled from the spec: the hook \<^verbatim>\<open>useSpeechSynthesis\<close> (\<^verbatim>\<open>speak\<close>, \<^verbatim>\<open>stop\<close>,
  \<^verbatim>\<open>isSpeaking\<close>) is imported by the component and is not among the sources. The
  specification gives: \<^emph>\<open>speak(text, onDone?): if already speaking, stop the current
  utterance first (last-call-wins; no queueing of overlapping utterances). Synthesize
  text; on natural completion, invoke onDone if provided, then transition to idle.
  stopSpeaking(): immediately halts any in-progress synthesis; safe to call when not
  speaking.\<close> The platform's utterances in progress are kept as a list, so that
  overlap can be expressed.
\<close>

record 'd utterance =
  utt_text :: jsstring
  utt_onDone :: "'d option"

record 'd synth =
  active :: "'d utterance list"
  isSpeaking :: bool
  done_calls :: "'d list"

definition initial_synth :: "'d synth" where
  "initial_synth = \<lparr> active = [], isSpeaking = False, done_calls = [] \<rparr>"

text \<open>Modelled from the spec: \<^verbatim>\<open>stopSpeaking\<close> of the missing hook.\<close>

definition stopSpeaking :: "'d synth \<Rightarrow> 'd synth" where
  "stopSpeaking s = s\<lparr> active := [], isSpeaking := False \<rparr>"

text \<open>Modelled from the spec: \<^verbatim>\<open>speak\<close> of the missing hook.\<close>

definition speak :: "jsstring \<Rightarrow> 'd option \<Rightarrow> 'd synth \<Rightarrow> 'd synth" where
  "speak txt dn s =
     (let s1 = (if isSpeaking s then stopSpeaking s else s)
      in s1\<lparr> active := active s1 @ [\<lparr> utt_text = txt, utt_onDone = dn \<rparr>],
             isSpeaking := True \<rparr>)"

text \<open>
  Modelled from the spec: the natural completion of the utterance in progress, which
  calls its \<^verbatim>\<open>onDone\<close> and leaves the synthesizer idle.
\<close>

definition speechCompleted :: "'d synth \<Rightarrow> 'd synth" where
  "speechCompleted s =
     (case active s of
        [] \<Rightarrow> s
      | u # us \<Rightarrow>
          s\<lparr> active := us,
             done_calls := done_calls s @ (case utt_onDone u of None \<Rightarrow> [] | Some d \<Rightarrow> [d]),
             isSpeaking := False \<rparr>)"

datatype 'd synth_event = CallSpeak jsstring "'d option" | CallStopSpeaking | SpeechCompleted

fun synth_step :: "'d synth \<Rightarrow> 'd synth_event \<Rightarrow> 'd synth" where
  "synth_step s (CallSpeak t d) = speak t d s"
| "synth_step s CallStopSpeaking = stopSpeaking s"
| "synth_step s SpeechCompleted = speechCompleted s"

definition synth_run :: "'d synth \<Rightarrow> 'd synth_event list \<Rightarrow> 'd synth" where
  "synth_run s evs = foldl synth_step s evs"

section \<open>Example data\<close>

text \<open>Result events: one final segment, and one interim segment.\<close>

definition merhaba_event :: sr_event where
  "merhaba_event =
     \<lparr> results = [\<lparr> isFinal = True, alt_transcript = js ''merhaba'' \<rparr>], resultIndex = 0 \<rparr>"

definition interim_event :: sr_event where
  "interim_event =
     \<lparr> results = [\<lparr> isFinal = False, alt_transcript = js ''mer'' \<rparr>], resultIndex = 0 \<rparr>"

text \<open>
  The recognizer made when the hook is mounted: its handlers hold \<^verbatim>\<open>isListening = false\<close>
  and an empty \<^verbatim>\<open>finalTranscript\<close>.
\<close>

definition r0 :: recognizer where
  "r0 = newRecognition 0 False []"

text \<open>
  The first render of the component over a hook with a recognizer, and the state after
  the voice button is pressed in that render.
\<close>

definition env0 :: closure_env where
  "env0 = render_env initial_app (mount True initial :: callback hook)"

definition toggled :: "app \<times> callback hook" where
  "toggled = fst (handleVoiceToggle env0 (initial_app, mount True initial))"

definition selam_response :: chat_response where
  "selam_response = \<lparr> resp_id = None, textResponse = js ''selam'', resp_sources = None \<rparr>"

text \<open>
  A session is started and the platform raises its start event and a result on the
  started recognizer: an interim result in the first example, a final one in the
  second.
\<close>

definition interim_example :: "callback event list" where
  "interim_example =
     [CallStartListening (Some (HandleVoiceConversation env0)), EvStart r0,
      EvResult r0 interim_event]"


text \<open>A session that is stopped by \<^verbatim>\<open>stopListening\<close> and then ends.\<close>

definition stopped_example :: "callback event list" where
  "stopped_example =
     [CallStartListening (Some (HandleVoiceConversation env0)), EvStart r0,
      CallStopListening, EvEnd r0]"

text \<open>
  A whole first session with the final segment \<open>merhaba\<close>, and the recognizer the
  effect has made by its end: the fourth object, whose handlers hold
  \<^verbatim>\<open>isListening = false\<close> and \<^verbatim>\<open>finalTranscript = "merhaba"\<close>. It is the one a
  following \<^verbatim>\<open>startListening\<close> calls \<^verbatim>\<open>start\<close> on.
\<close>

definition first_session_example :: "callback event list" where
  "first_session_example =
     [CallStartListening (Some (HandleVoiceConversation env0)), EvStart r0,
      EvResult r0 merhaba_event, EvEnd r0]"

definition r3 :: recognizer where
  "r3 = newRecognition 3 False (js ''merhaba'')"

definition second_session_example :: "callback event list" where
  "second_session_example =
     first_session_example @ [CallStartListening (Some (HandleVoiceConversation env0))]"

text \<open>
  A session with an interim result, silence, a final result with more interim text, a
  call of \<^verbatim>\<open>startListening\<close> while listening, and a result event that finalizes the
  second segment.
\<close>

definition session_example :: "callback event list" where
  "session_example =
     [EvResult r0 \<lparr> results = [\<lparr> isFinal = False, alt_transcript = js ''mer'' \<rparr>],
                   resultIndex = 0 \<rparr>,
      Advance 500,
      EvResult r0 \<lparr> results = [\<lparr> isFinal = True, alt_transcript = js ''merhaba'' \<rparr>,
                               \<lparr> isFinal = False, alt_transcript = js '' dun'' \<rparr>],
                   resultIndex = 0 \<rparr>,
      CallStartListening None,
      EvResult r0 \<lparr> results = [\<lparr> isFinal = True, alt_transcript = js ''merhaba'' \<rparr>,
                               \<lparr> isFinal = True, alt_transcript = js '' dunya'' \<rparr>,
                               \<lparr> isFinal = False, alt_transcript = js ''nasil'' \<rparr>],
                   resultIndex = 1 \<rparr>]"

text \<open>Manual dictation: a session started with no callback, and the final segment of
  the specification's scenario (its last code unit is U+0131).\<close>

definition manual_session :: "callback event list" where
  "manual_session = [CallStartListening None, EvStart r0]"

definition test_mesaji :: jsstring where
  "test_mesaji = [116, 101, 115, 116, 32, 109, 101, 115, 97, 106, 305]"

definition test_mesaji_event :: sr_event where
  "test_mesaji_event =
     \<lparr> results = [\<lparr> isFinal = True, alt_transcript = test_mesaji \<rparr>], resultIndex = 0 \<rparr>"

section \<open>Properties of the recognition hook\<close>

subsection \<open>The handlers as record updates\<close>

lemma split_results_drop:
  "split_results rs i interim final =
     (interim @ concat (map alt_transcript (filter (\<lambda>r. \<not> isFinal r) (drop i rs))),
      final @ concat (map alt_transcript (filter isFinal (drop i rs))))"
proof (induction rs i interim final rule: split_results.induct)
  case (1 rs i interim final)
  show ?case
  proof (cases "i < length rs")
    case False
    then show ?thesis by (simp add: split_results.simps [of rs i])
  next
    case True
    then have d: "drop i rs = rs ! i # drop (i + 1) rs"
      by (simp add: Cons_nth_drop_Suc)
    show ?thesis
    proof (cases "isFinal (rs ! i)")
      case True
      with \<open>i < length rs\<close> "1.IH"(1) d show ?thesis
        by (simp add: split_results.simps [of rs i])
    next
      case False
      with \<open>i < length rs\<close> "1.IH"(2) d show ?thesis
        by (simp add: split_results.simps [of rs i])
    qed
  qed
qed

lemma split_results_portions:
  "split_results (results ev) (resultIndex ev) [] [] = (interim_portion ev, final_portion ev)"
  by (simp add: split_results_drop interim_portion_def final_portion_def new_results_def)

lemma fold_silenceTimeout:
  "fold silenceTimeout ts s =
     s\<lparr> commands := commands s @
          (if recognitionRef s \<noteq> None
           then map (\<lambda>t. (cap_recognition t, CmdStop)) (filter cap_listening ts) else []) \<rparr>"
  by (induction ts arbitrary: s) (simp_all add: silenceTimeout_def)

lemma advance_eq:
  "advance d s =
     s\<lparr> now := now s + d,
        timers := filter (\<lambda>t. \<not> deadline t \<le> now s + d) (timers s),
        commands := commands s @
          (if recognitionRef s \<noteq> None
           then map (\<lambda>t. (cap_recognition t, CmdStop))
                  (filter cap_listening (filter (\<lambda>t. deadline t \<le> now s + d) (timers s)))
           else []) \<rparr>"
  by (simp add: advance_def fold_silenceTimeout)

lemma clearSilenceTimer_eq:
  "clearSilenceTimer s =
     s\<lparr> timers := filter (\<lambda>t. Some (tid t) \<noteq> silenceTimerRef s) (timers s) \<rparr>"
  by (cases "silenceTimerRef s") (simp_all add: clearSilenceTimer_def clearTimeout_def)

lemma onresult_eq:
  "onresult r ev s =
     s\<lparr> finalTranscript := finalTranscript s @ final_portion ev,
        transcript := interim_portion ev,
        timers := filter (\<lambda>t. Some (tid t) \<noteq> silenceTimerRef s) (timers s) @
            [\<lparr> tid = nextTimerId s, deadline = now s + 2000,
               cap_listening = rc_isListening r, cap_recognition = r \<rparr>],
        silenceTimerRef := Some (nextTimerId s),
        nextTimerId := nextTimerId s + 1 \<rparr>"
  by (simp add: onresult_def split_results_portions setSilenceTimer_def clearSilenceTimer_eq)

lemma onend_eq:
  "onend cft s =
     (case onSpeechEndRef s of
        Some cb \<Rightarrow>
          if cft \<noteq> [] then
            s\<lparr> isListening := False, invoked := invoked s @ [(cb, cft)], finalTranscript := [] \<rparr>
          else s\<lparr> isListening := False \<rparr>
      | None \<Rightarrow> s\<lparr> isListening := False \<rparr>)"
  by (simp add: onend_def Let_def split: option.splits)

lemma cleanup_eq:
  "cleanup s =
     s\<lparr> commands := commands s @
          (case recognitionRef s of Some r \<Rightarrow> [(r, CmdAbort)] | None \<Rightarrow> []),
        timers := filter (\<lambda>t. Some (tid t) \<noteq> silenceTimerRef s) (timers s) \<rparr>"
  by (simp add: cleanup_def clearSilenceTimer_eq split: option.splits)

lemma startListening_eq:
  "startListening cil cb s =
     (if recognitionRef s \<noteq> None \<and> \<not> cil then
        s\<lparr> onSpeechEndRef := cb, transcript := [], finalTranscript := [],
           commands := commands s @ [(the (recognitionRef s), CmdStart)] \<rparr>
      else s)"
  by (simp add: startListening_def split: option.splits)

lemma stopListening_eq:
  "stopListening cil s =
     s\<lparr> commands := commands s @
          (if recognitionRef s \<noteq> None \<and> cil then [(the (recognitionRef s), CmdStop)] else []),
        timers := filter (\<lambda>t. Some (tid t) \<noteq> silenceTimerRef s) (timers s) \<rparr>"
  by (simp add: stopListening_def clearSilenceTimer_eq split: option.splits)

text \<open>The render after a handler leaves the state cells, the callback and its calls alone.\<close>

lemma rerender_keeps [simp]:
  "isListening (rerender s0 s1) = isListening s1"
  "transcript (rerender s0 s1) = transcript s1"
  "finalTranscript (rerender s0 s1) = finalTranscript s1"
  "onSpeechEndRef (rerender s0 s1) = onSpeechEndRef s1"
  "invoked (rerender s0 s1) = invoked s1"
  "mounted (rerender s0 s1) = mounted s1"
  "hasSpeechRecognition (rerender s0 s1) = hasSpeechRecognition s1"
  "now (rerender s0 s1) = now s1"
  "silenceTimerRef (rerender s0 s1) = silenceTimerRef s1"
  by (simp_all add: rerender_def effect_def cleanup_eq)

lemma rerender_same [simp]: "rerender s s = s"
  by (simp add: rerender_def)


lemma run_Cons: "run s (x # xs) = run (step s x) xs"
  by (simp add: run_def)

lemma run_Nil [simp]: "run s [] = s"
  by (simp add: run_def)

lemma js_nonempty [simp]: "js (c # cs) \<noteq> []"
  by (simp add: js_def)

lemmas handlers = onstart_def onend_eq onresult_eq onerror_def advance_eq startListening_eq
  stopListening_eq resetTranscript_def unmount_def cleanup_eq clearSilenceTimer_eq

subsection \<open>The transcript during a session\<close>

lemma step_in_session:
  assumes "isListening s" "in_session e"
  shows "isListening (step s e)"
    and "finalTranscript (step s e) = finalTranscript s @ concat (map final_portion (result_of e))"
    and "transcript (step s e) =
           (case result_of e of [] \<Rightarrow> transcript s | ev # rest \<Rightarrow> interim_portion ev)"
  using assms
  by (cases e; simp add: step_def onresult_eq advance_eq startListening_eq stopListening_eq)+

lemma run_in_session:
  assumes "isListening s" "list_all in_session evs"
  shows "isListening (run s evs) \<and>
     finalTranscript (run s evs) =
       finalTranscript s @ concat (map final_portion (result_events evs)) \<and>
     transcript (run s evs) =
       (if result_events evs = [] then transcript s
        else interim_portion (last (result_events evs)))"
  using assms
proof (induction evs rule: rev_induct)
  case Nil
  then show ?case by (simp add: run_def result_events_def)
next
  case (snoc e evs)
  then have IH: "isListening (run s evs)"
     "finalTranscript (run s evs) =
        finalTranscript s @ concat (map final_portion (result_events evs))"
     "transcript (run s evs) =
       (if result_events evs = [] then transcript s
        else interim_portion (last (result_events evs)))"
    and e: "in_session e" by simp_all
  have r: "run s (evs @ [e]) = step (run s evs) e" by (simp add: run_def)
  have re: "result_events (evs @ [e]) = result_events evs @ result_of e"
    by (simp add: result_events_def)
  note st = step_in_session [OF IH(1) e]
  show ?case
  proof (cases "result_of e")
    case Nil
    with st IH show ?thesis by (simp add: r re)
  next
    case (Cons ev rest)
    then have "result_of e = [ev]" by (cases e) simp_all
    with st IH show ?thesis by (simp add: r re)
  qed
qed

text \<open>
  C1. From the start of a listening session, after any run of result events (with time
  passing and calls of \<^verbatim>\<open>startListening\<close> and \<^verbatim>\<open>stopListening\<close> in between), the
  committed transcript is the concatenation, in arrival order, of the final portions of
  the result events; the interim transcript is the non-final portion of the latest
  result event (empty before the first); and the transcript the hook exposes is the
  committed text followed by the interim text. This holds whatever recognizer raises
  the events, and through the renders that follow them.
\<close>

theorem C1_transcript_accumulation:
  assumes "list_all in_session evs"
  shows "finalTranscript (run (onstart s) evs) = concat (map final_portion (result_events evs)) \<and>
     transcript (run (onstart s) evs) =
       (if result_events evs = [] then [] else interim_portion (last (result_events evs))) \<and>
     exposed_transcript (run (onstart s) evs) =
       finalTranscript (run (onstart s) evs) @ transcript (run (onstart s) evs)"
  using run_in_session [of "onstart s" evs] assms
  by (simp add: onstart_def exposed_transcript_def)

theorem C1_transcript_accumulation_witness:
  "list_all in_session session_example \<and>
   finalTranscript (run (onstart (mount True initial)) session_example) = js ''merhaba dunya'' \<and>
   transcript (run (onstart (mount True initial)) session_example) = js ''nasil'' \<and>
   exposed_transcript (run (onstart (mount True initial)) session_example) =
     js ''merhaba dunyanasil''"
proof -
  have h: "list_all in_session session_example"
    by (simp add: session_example_def)
  have "result_events session_example =
      [\<lparr> results = [\<lparr> isFinal = False, alt_transcript = js ''mer'' \<rparr>], resultIndex = 0 \<rparr>,
       \<lparr> results = [\<lparr> isFinal = True, alt_transcript = js ''merhaba'' \<rparr>,
                    \<lparr> isFinal = False, alt_transcript = js '' dun'' \<rparr>], resultIndex = 0 \<rparr>,
       \<lparr> results = [\<lparr> isFinal = True, alt_transcript = js ''merhaba'' \<rparr>,
                    \<lparr> isFinal = True, alt_transcript = js '' dunya'' \<rparr>,
                    \<lparr> isFinal = False, alt_transcript = js ''nasil'' \<rparr>], resultIndex = 1 \<rparr>]"
    by (simp add: session_example_def result_events_def)
  with h C1_transcript_accumulation [OF h, of "mount True initial"]
  show ?thesis
    by (simp add: final_portion_def interim_portion_def new_results_def js_def)
qed

subsection \<open>Evaluated runs\<close>

lemma js_nonempty2 [simp]: "[] \<noteq> js (c # cs)"
  by (simp add: js_def)

lemmas eval = run_def step_def rerender_def effect_def handlers started_def
  merhaba_event_def interim_event_def final_portion_def interim_portion_def new_results_def
  r0_def r3_def newRecognition_def

lemma mount_state:
  "(mount True initial :: callback hook) =
     \<lparr> isListening = False, transcript = [], isSupported = True, finalTranscript = [],
       recognitionRef = Some r0, silenceTimerRef = None, onSpeechEndRef = None,
       hasSpeechRecognition = True, mounted = True, nextRecognitionId = 1,
       now = 0, nextTimerId = 1, timers = [], commands = [], invoked = [] \<rparr>"
  by (simp add: mount_def effect_def initial_def r0_def)

lemma interim_example_state:
  "run (mount True initial) interim_example =
     \<lparr> isListening = True, transcript = js ''mer'', isSupported = True, finalTranscript = [],
       recognitionRef = Some (newRecognition 1 True []), silenceTimerRef = Some 1,
       onSpeechEndRef = Some (HandleVoiceConversation env0),
       hasSpeechRecognition = True, mounted = True, nextRecognitionId = 2,
       now = 0, nextTimerId = 2,
       timers = [\<lparr> tid = 1, deadline = 2000, cap_listening = False, cap_recognition = r0 \<rparr>],
       commands = [(r0, CmdStart), (r0, CmdAbort)], invoked = [] \<rparr>"
  by (simp add: interim_example_def mount_state eval)


lemma second_session_state:
  "run (mount True initial) second_session_example =
     \<lparr> isListening = False, transcript = [], isSupported = True, finalTranscript = [],
       recognitionRef = Some (newRecognition 4 False []), silenceTimerRef = Some 1,
       onSpeechEndRef = Some (HandleVoiceConversation env0),
       hasSpeechRecognition = True, mounted = True, nextRecognitionId = 5,
       now = 0, nextTimerId = 2, timers = [],
       commands = [(r0, CmdStart), (r0, CmdAbort), (newRecognition 1 True [], CmdAbort),
                   (newRecognition 2 True (js ''merhaba''), CmdAbort),
                   (r3, CmdStart), (r3, CmdAbort)],
       invoked = [] \<rparr>"
  by (simp add: second_session_example_def first_session_example_def mount_state eval)


lemma first_session_state:
  "run (mount True initial) first_session_example =
     \<lparr> isListening = False, transcript = [], isSupported = True,
       finalTranscript = js ''merhaba'',
       recognitionRef = Some r3, silenceTimerRef = Some 1,
       onSpeechEndRef = Some (HandleVoiceConversation env0),
       hasSpeechRecognition = True, mounted = True, nextRecognitionId = 4,
       now = 0, nextTimerId = 2, timers = [],
       commands = [(r0, CmdStart), (r0, CmdAbort), (newRecognition 1 True [], CmdAbort),
                   (newRecognition 2 True (js ''merhaba''), CmdAbort)],
       invoked = [] \<rparr>"
  by (simp add: first_session_example_def mount_state eval)

lemma stopped_example_state:
  "run (mount True initial) stopped_example =
     \<lparr> isListening = False, transcript = [], isSupported = True, finalTranscript = [],
       recognitionRef = Some (newRecognition 2 False []), silenceTimerRef = None,
       onSpeechEndRef = Some (HandleVoiceConversation env0),
       hasSpeechRecognition = True, mounted = True, nextRecognitionId = 3,
       now = 0, nextTimerId = 1, timers = [],
       commands = [(r0, CmdStart), (r0, CmdAbort), (newRecognition 1 True [], CmdStop),
                   (newRecognition 1 True [], CmdAbort)],
       invoked = [] \<rparr>"
  by (simp add: stopped_example_def mount_state eval)

subsection \<open>Starting while listening\<close>

text \<open>
  C4. A call of \<^verbatim>\<open>startListening\<close> made while the hook is listening leaves the whole
  state as it was: the listening flag, the committed and the interim transcript, the
  stored callback, and the calls the recognizers have received. The same holds for any
  instance of \<^verbatim>\<open>startListening\<close> made in a render that was listening.
\<close>

theorem C4_startListening_while_listening:
  "(isListening s \<longrightarrow> step s (CallStartListening cb) = s) \<and>
   (cil \<longrightarrow> startListening cil cb s = s)"
  by (simp add: startListening_eq step_def)

theorem C4_startListening_while_listening_witness:
  "isListening (run (mount True initial) interim_example) \<and>
   step (run (mount True initial) interim_example) (CallStartListening None) =
     run (mount True initial) interim_example \<and>
   startListening True None (run (mount True initial) interim_example) =
     run (mount True initial) interim_example"
proof -
  have l: "isListening (run (mount True initial) interim_example)"
    by (simp add: interim_example_state)
  show ?thesis
    using l C4_startListening_while_listening
      [of "run (mount True initial) interim_example" None True]
    by simp
qed

subsection \<open>The stored callback\<close>

lemma invoked_step: "invoked (step s e) = invoked (handle s e)"
  by (simp add: step_def)





lemma invoked_passes_captured_text:
  assumes "invoked (step s (EvEnd r)) \<noteq> invoked s"
  shows "rc_finalTranscript r \<noteq> [] \<and>
     (\<exists>cb. onSpeechEndRef s = Some cb \<and>
           invoked (step s (EvEnd r)) = invoked s @ [(cb, rc_finalTranscript r)])"
  using assms by (auto simp: step_def onend_eq split: option.splits if_splits)




text \<open>
  What the handlers of the started recognizer hold decides the call, not the state: a
  session that ends with the committed transcript \<open>merhaba\<close> and a stored callback
  calls nothing, since the recognizer that was started was made before the session,
  with an empty \<^verbatim>\<open>finalTranscript\<close>; and the end of the next session passes \<open>merhaba\<close>
  to the callback although nothing was said in it.
\<close>

lemma session_text_not_delivered:
  "finalTranscript (run (mount True initial) first_session_example) = js ''merhaba'' \<and>
   onSpeechEndRef (run (mount True initial) first_session_example) =
     Some (HandleVoiceConversation env0) \<and>
   invoked (run (mount True initial) first_session_example) = []"
  by (simp add: first_session_state)

lemma earlier_text_delivered:
  "finalTranscript (run (mount True initial) second_session_example) = [] \<and>
   invoked (step (run (mount True initial) second_session_example) (EvEnd r3)) =
     [(HandleVoiceConversation env0, js ''merhaba'')]"
  by (simp add: second_session_state step_def onend_eq r3_def newRecognition_def)




subsection \<open>Invariants of the runs\<close>


lemma timers_ok_filter: "timers_ok s \<Longrightarrow> timers_ok (s\<lparr> timers := filter P (timers s) \<rparr>)"
  by (auto simp: timers_ok_def split: list.splits)










subsection \<open>Started recognizers have been aborted or are current\<close>




subsection \<open>Started recognizers were made while not listening\<close>

lemma hook_invariant_mount: "hook_invariant (mount True initial)"
  by (simp add: hook_invariant_def current_fresh_def started_not_listening_def mount_def effect_def initial_def
      newRecognition_def)

lemma current_fresh_step:
  assumes "mounted s" "current_fresh s" "e \<noteq> Teardown"
  shows "mounted (step s e) \<and> current_fresh (step s e)"
  using assms
  by (cases e)
    (auto simp: current_fresh_def step_def rerender_def effect_def newRecognition_def handlers
      split: option.splits if_splits)

lemma started_not_listening_step:
  assumes "mounted s" "current_fresh s" "started_not_listening s" "e \<noteq> Teardown"
    and "case event_source e of None \<Rightarrow> True | Some r \<Rightarrow> started s r"
  shows "started_not_listening (step s e)"
  using assms
  by (cases e)
    (auto simp: current_fresh_def started_not_listening_def started_def list_all_iff
      step_def rerender_def effect_def handlers
      split: option.splits if_splits)

lemma hook_invariant_step:
  assumes "hook_invariant s" "e \<noteq> Teardown"
    and "case event_source e of None \<Rightarrow> True | Some r \<Rightarrow> started s r"
  shows "hook_invariant (step s e)"
  using assms current_fresh_step [of s e] started_not_listening_step [of s e]
  by (simp add: hook_invariant_def)

lemma hook_invariant_run:
  assumes "hook_invariant s" "dispatched s evs" "list_all (\<lambda>e. e \<noteq> Teardown) evs"
  shows "hook_invariant (run s evs)"
  using assms
proof (induction evs arbitrary: s)
  case Nil
  then show ?case by simp
next
  case (Cons e evs)
  from Cons.prems have "hook_invariant (step s e)"
    by (intro hook_invariant_step) simp_all
  with Cons show ?case by (simp add: run_Cons)
qed

lemma step_Advance: "step s (Advance d) = advance d s"
  by (simp add: step_def rerender_def advance_eq)

text \<open>
  In a mounted hook whose recognizer events come from started recognizers, no silence
  timeout ever calls \<^verbatim>\<open>stop\<close>: time passing leaves the calls as they are.
\<close>

lemma silence_timeout_never_stops:
  assumes "dispatched (mount True initial) evs" "list_all (\<lambda>e. e \<noteq> Teardown) evs"
  shows "commands (step (run (mount True initial) evs) (Advance d)) =
         commands (run (mount True initial) evs)"
proof -
  have "hook_invariant (run (mount True initial) evs)"
    using hook_invariant_run [OF hook_invariant_mount assms] .
  then have "list_all (\<lambda>t. \<not> cap_listening t) (timers (run (mount True initial) evs))"
    by (simp add: hook_invariant_def started_not_listening_def)
  then have "filter cap_listening
      (filter (\<lambda>t. deadline t \<le> now (run (mount True initial) evs) + d)
         (timers (run (mount True initial) evs))) = []"
    by (auto simp: list_all_iff filter_empty_conv)
  then show ?thesis
    by (simp add: step_Advance advance_eq)
qed

subsection \<open>The silence timer\<close>


subsection \<open>Teardown\<close>





section \<open>Properties of the chat component\<close>

subsection \<open>Manual dictation\<close>

lemma transcriptEffect_idem: "transcriptEffect (transcriptEffect x) = transcriptEffect x"
  by (cases x) (simp add: transcriptEffect_def exposed_transcript_def resetTranscript_def)

lemma manual_effect_empties:
  "\<not> isVoiceMode a \<Longrightarrow> exposed_transcript (snd (transcriptEffect (a, h))) = []"
  by (simp add: transcriptEffect_def exposed_transcript_def resetTranscript_def)

lemma transcriptEffect_funpow: "(transcriptEffect ^^ Suc n) x = transcriptEffect x"
  by (induction n) (simp_all add: transcriptEffect_idem)

text \<open>
  C7. With voice mode off and no committed text waiting (the effect leaves none
  behind), when a result event of any recognizer brings a final segment, the effect
  writes the
  transcript of that event (the final segment, followed by the interim text the event
  carries, if any) into the input field and empties the hook's transcript; running the
  effect any number of further times changes nothing, so the text is applied once.
\<close>

theorem C7_manual_dictation:
  assumes "\<not> isVoiceMode a" "finalTranscript h = []" "final_portion ev \<noteq> []"
  shows "input (fst (transcriptEffect (a, step h (EvResult r ev)))) =
           final_portion ev @ interim_portion ev \<and>
         exposed_transcript (snd (transcriptEffect (a, step h (EvResult r ev)))) = [] \<and>
         (transcriptEffect ^^ Suc n) (a, step h (EvResult r ev)) =
           transcriptEffect (a, step h (EvResult r ev))"
  using assms
  by (simp add: transcriptEffect_funpow del: funpow.simps)
     (simp add: transcriptEffect_def exposed_transcript_def resetTranscript_def step_def
        onresult_eq)

theorem C7_manual_dictation_witness:
  "\<not> isVoiceMode initial_app \<and>
   finalTranscript (run (mount True initial) manual_session) = [] \<and>
   final_portion test_mesaji_event \<noteq> [] \<and>
   input (fst (transcriptEffect
     (initial_app, step (run (mount True initial) manual_session) (EvResult r0 test_mesaji_event)))) =
     test_mesaji \<and>
   exposed_transcript (snd (transcriptEffect
     (initial_app, step (run (mount True initial) manual_session) (EvResult r0 test_mesaji_event)))) =
     [] \<and>
   (transcriptEffect ^^ Suc 2)
     (initial_app, step (run (mount True initial) manual_session) (EvResult r0 test_mesaji_event)) =
   transcriptEffect
     (initial_app, step (run (mount True initial) manual_session) (EvResult r0 test_mesaji_event))"
proof -
  have h: "\<not> isVoiceMode initial_app"
    "finalTranscript (run (mount True initial) manual_session :: callback hook) = []"
    "final_portion test_mesaji_event \<noteq> []"
    by (simp_all add: initial_app_def manual_session_def mount_state eval
        test_mesaji_event_def test_mesaji_def)
  have p: "final_portion test_mesaji_event @ interim_portion test_mesaji_event = test_mesaji"
    by (simp add: final_portion_def interim_portion_def new_results_def test_mesaji_event_def)
  show ?thesis
    using h p C7_manual_dictation [OF h, where n = 2 and r = r0]
    by (simp del: funpow.simps)
qed

subsection \<open>The hands-free turn\<close>

lemma trim_empty_iff: "trim s = [] \<longleftrightarrow> list_all js_whitespace s"
proof
  assume "trim s = []"
  then have "\<forall>x\<in>set (dropWhile js_whitespace s). js_whitespace x"
    by (simp add: trim_def dropWhile_eq_Nil_conv)
  then have "dropWhile js_whitespace s = []"
    by (metis hd_dropWhile list.set_sel(1))
  then show "list_all js_whitespace s"
    by (simp add: dropWhile_eq_Nil_conv list_all_iff)
next
  assume "list_all js_whitespace s"
  then show "trim s = []"
    by (auto simp: trim_def list_all_iff dest: set_dropWhileD)
qed



text \<open>
  The callback \<^verbatim>\<open>handleVoiceToggle\<close> registers is the \<^verbatim>\<open>handleVoiceConversation\<close> of the
  render in which the button was pressed. Voice mode is switched on only by the branch
  taken when that render's \<^verbatim>\<open>isVoiceMode\<close> is false, so the registered closure holds
  \<^verbatim>\<open>isVoiceMode = false\<close>, and so do the closures it schedules, which register itself.
\<close>

lemma toggle_registers_own_render:
  "\<not> cap_isVoiceMode env \<Longrightarrow>
     handleVoiceToggle env (a, h) =
       ((a\<lparr> isVoiceMode := True \<rparr>,
         startListening (cap_isListening env) (Some (HandleVoiceConversation env)) h), [])"
  by (simp add: handleVoiceToggle_def)

lemma toggle_switches_on_iff:
  "isVoiceMode (fst (fst (handleVoiceToggle env (a, h)))) \<longleftrightarrow> \<not> cap_isVoiceMode env"
  by (simp add: handleVoiceToggle_def)

lemma task_registers_same_closure:
  "recognitionRef h \<noteq> None \<Longrightarrow> \<not> cap_isListening env \<Longrightarrow>
     onSpeechEndRef (runTask (StartListeningTask env) h) = Some (HandleVoiceConversation env)"
  by (simp add: startListening_eq)

lemma stale_turn_schedules_nothing:
  assumes "\<not> cap_isVoiceMode env"
  shows "SetTimeout d k \<notin> set (snd (handleVoiceConversation env t0 t1 outcome txt a))"
    and "onDone (RelistenIfVoiceMode env) = []"
  using assms by (auto simp: handleVoiceConversation_def Let_def split: sum.splits if_splits)

text \<open>What a turn does after the backend call, by the captured \<^verbatim>\<open>isVoiceMode\<close>.\<close>

lemma turn_failure_effects:
  "trim txt \<noteq> [] \<Longrightarrow>
     snd (handleVoiceConversation env t0 t1 (Inl err) txt a) =
       [StopSpeaking, SendChatMessage txt (cap_mode env) sessionId, ConsoleError] @
       (if cap_isVoiceMode env then [SetTimeout 2000 (StartListeningTask env)] else [])"
  by (simp add: handleVoiceConversation_def Let_def)

lemma turn_failure_message:
  "trim txt \<noteq> [] \<Longrightarrow>
     messages (fst (handleVoiceConversation env t0 t1 (Inl err) txt a)) =
       messages a @
       [\<lparr> mid = ClockId t0, mtype = User, message = txt, timestamp = t0 \<rparr>,
        \<lparr> mid = ClockId t1, mtype = Bot,
          message = (case err of ChatApiError m \<Rightarrow> m | OtherFailure \<Rightarrow> genericErrorMessage),
          timestamp = t1 \<rparr>]"
  by (simp add: handleVoiceConversation_def Let_def)

lemma turn_success_effects:
  "trim txt \<noteq> [] \<Longrightarrow> textResponse d \<noteq> [] \<Longrightarrow>
     snd (handleVoiceConversation env t0 t1 (Inr d) txt a) =
       [StopSpeaking, SendChatMessage txt (cap_mode env) sessionId,
        Speak (textResponse d) (Some (RelistenIfVoiceMode env))]"
  by (simp add: handleVoiceConversation_def Let_def)

lemma turn_keeps_voice_mode:
  "isVoiceMode (fst (handleVoiceConversation env t0 t1 outcome txt a)) = isVoiceMode a"
  by (simp add: handleVoiceConversation_def Let_def split: sum.splits)



text \<open>
  C10. Called with a text that is empty or consists of whitespace only,
  \<^verbatim>\<open>handleVoiceConversation\<close> returns the state of the component unchanged (no message
  appended, the loading flag as it was) and calls none of its collaborators: no backend
  call, no speech, no timeout.
\<close>

theorem C10_blank_text_ignored:
  "list_all js_whitespace spokenText \<Longrightarrow>
     handleVoiceConversation env t0 t1 outcome spokenText a = (a, [])"
  by (simp add: handleVoiceConversation_def trim_empty_iff)

theorem C10_blank_text_ignored_witness:
  "list_all js_whitespace [32, 9, 160, 10] \<and>
   handleVoiceConversation env0 1000 1500 (Inr selam_response) [32, 9, 160, 10] (fst toggled) =
     (fst toggled, [])"
proof -
  have h: "list_all js_whitespace [32, 9, 160, 10]" by (simp add: js_whitespace_def)
  show ?thesis using h C10_blank_text_ignored [OF h] by simp
qed

section \<open>Properties of speech synthesis\<close>

lemma synth_inv_step:
  assumes "length (active s) \<le> 1" "isSpeaking s \<longleftrightarrow> active s \<noteq> []"
  shows "length (active (synth_step s e)) \<le> 1"
    and "isSpeaking (synth_step s e) \<longleftrightarrow> active (synth_step s e) \<noteq> []"
  using assms
  by (cases e; cases "active s";
      simp add: speak_def stopSpeaking_def speechCompleted_def Let_def)+

lemma synth_inv_run:
  assumes "length (active s) \<le> 1" "isSpeaking s \<longleftrightarrow> active s \<noteq> []"
  shows "length (active (synth_run s evs)) \<le> 1 \<and>
     (isSpeaking (synth_run s evs) \<longleftrightarrow> active (synth_run s evs) \<noteq> [])"
  using assms unfolding synth_run_def
proof (induction evs arbitrary: s)
  case Nil
  then show ?case by simp
next
  case (Cons e evs)
  from synth_inv_step [OF Cons.prems, of e] Cons.IH [of "synth_step s e"]
  show ?case by simp
qed

text \<open>
  C9. After any sequence of calls of \<^verbatim>\<open>speak\<close> and \<^verbatim>\<open>stopSpeaking\<close> and of natural
  completions, at most one utterance is in progress; and a call of \<^verbatim>\<open>speak\<close> leaves
  its own utterance as the only one, whatever was being spoken before.
\<close>

theorem C9_one_utterance:
  "length (active (synth_run initial_synth evs)) \<le> 1 \<and>
   active (synth_step (synth_run initial_synth evs) (CallSpeak t d)) =
     [\<lparr> utt_text = t, utt_onDone = d \<rparr>]"
proof -
  have i: "length (active (synth_run initial_synth evs)) \<le> 1 \<and>
     (isSpeaking (synth_run initial_synth evs) \<longleftrightarrow>
        active (synth_run initial_synth evs) \<noteq> [])"
    by (rule synth_inv_run) (simp_all add: initial_synth_def)
  then show ?thesis
    by (cases "active (synth_run initial_synth evs)")
       (simp_all add: speak_def stopSpeaking_def Let_def)
qed

end
